theory Spec2Isabelle
  imports Main
begin

section \<open>Run-time values\<close>

text \<open>
  The automation engine (\<^verbatim>\<open>AutomationEngine.ts\<close>) works on dynamically typed data: the
  event context, the literal of a condition and the parameters of an action are arbitrary
  JavaScript values. They are modelled by the datatype below. An object that is not a
  function carries the address it lives at, because \<^verbatim>\<open>===\<close> compares objects by
  reference, and the list of its own data properties in insertion order; what it
  inherits through its prototype chain is known to the realm, below. A built-in function
  object, which a read through the prototype chain can reach (\<^verbatim>\<open>{}.constructor\<close> is
  \<^verbatim>\<open>Object\<close>), is named. Finite numbers are modelled by their integer value; \<^verbatim>\<open>NaN\<close> is a
  number of its own. Own accessor properties, proxies, symbols, arrays, functions other
  than the built-in ones and fractional numbers are outside the model.
\<close>

datatype jsval =
    JUndefined
  | JNull
  | JBool bool
  | JNum int
  | JNaN
  | JStr string
  | JObj nat "(string \<times> jsval) list"
  | JFun string

type_synonym props = "(string \<times> jsval) list"

text \<open>
  Exceptions. A \<^verbatim>\<open>TypeError\<close> is raised by a method call on a value that has no such
  method (\<^verbatim>\<open>template.replace\<close> when the parameter is missing or not a string), by a read
  of a restricted property of a function object, and by a conversion to a string that
  finds no primitive; a built-in function or a collaborator may fail with an error of its
  own.
\<close>

datatype exn = TypeError | CollaboratorError string

text \<open>
  The realm: the part of the JavaScript run time that the engine's own code does not
  decide. \<open>inherited R v part\<close> is what the prototype chain of \<open>v\<close> gives for a property
  that \<open>v\<close> does not own (for a function object: for any property but the restricted
  ones), \<^verbatim>\<open>undefined\<close> when the chain has none. \<open>call R f this\<close> is the call of the
  built-in function \<open>f\<close> on \<open>this\<close> without arguments. \<open>number_string R n\<close> is the string
  form of a number from \<open>10\<^sup>2\<^sup>1\<close> on, which is in exponent notation. Every statement below
  holds for every realm.
\<close>

record Realm =
  inherited :: "jsval \<Rightarrow> string \<Rightarrow> jsval"
  call :: "string \<Rightarrow> jsval \<Rightarrow> exn + jsval"
  number_string :: "int \<Rightarrow> string"

text \<open>The operator \<^verbatim>\<open>typeof\<close>.\<close>

fun typeof :: "jsval \<Rightarrow> string" where
  "typeof JUndefined = ''undefined''"
| "typeof JNull = ''object''"
| "typeof (JBool b) = ''boolean''"
| "typeof (JNum n) = ''number''"
| "typeof JNaN = ''number''"
| "typeof (JStr s) = ''string''"
| "typeof (JObj a ps) = ''object''"
| "typeof (JFun f) = ''function''"

text \<open>Truthiness, as \<^verbatim>\<open>!v\<close> and \<^verbatim>\<open>if (v)\<close> read it.\<close>

fun truthy :: "jsval \<Rightarrow> bool" where
  "truthy JUndefined = False"
| "truthy JNull = False"
| "truthy (JBool b) = b"
| "truthy (JNum n) = (n \<noteq> 0)"
| "truthy JNaN = False"
| "truthy (JStr s) = (s \<noteq> [])"
| "truthy (JObj a ps) = True"
| "truthy (JFun f) = True"

text \<open>
  Strict equality \<^verbatim>\<open>===\<close>: same type and same value, \<^verbatim>\<open>NaN\<close> different from itself,
  objects and functions equal only when they are the same object.
\<close>

fun strict_eq :: "jsval \<Rightarrow> jsval \<Rightarrow> bool" where
  "strict_eq JUndefined JUndefined = True"
| "strict_eq JNull JNull = True"
| "strict_eq (JBool a) (JBool b) = (a = b)"
| "strict_eq (JNum a) (JNum b) = (a = b)"
| "strict_eq (JStr a) (JStr b) = (a = b)"
| "strict_eq (JObj a ps) (JObj b qs) = (a = b)"
| "strict_eq (JFun f) (JFun g) = (f = g)"
| "strict_eq _ _ = False"

text \<open>
  The comparisons \<^verbatim>\<open><\<close> and \<^verbatim>\<open>>\<close> on two numbers (the engine guards both operands by
  \<^verbatim>\<open>typeof\<close>, so no coercion happens): false as soon as an operand is \<^verbatim>\<open>NaN\<close>.
\<close>

fun num_less :: "jsval \<Rightarrow> jsval \<Rightarrow> bool" where
  "num_less (JNum a) (JNum b) = (a < b)"
| "num_less _ _ = False"

fun num_greater :: "jsval \<Rightarrow> jsval \<Rightarrow> bool" where
  "num_greater (JNum a) (JNum b) = (a > b)"
| "num_greater _ _ = False"

text \<open>Decimal digits of a natural number, for \<^verbatim>\<open>String(n)\<close> and for string indices.\<close>

definition digit_char :: "nat \<Rightarrow> char" where
  "digit_char d = ''0123456789'' ! d"

fun nat_to_dec :: "nat \<Rightarrow> string" where
  "nat_to_dec n =
     (if n < 10 then [digit_char n]
      else nat_to_dec (n div 10) @ [digit_char (n mod 10)])"

definition int_to_dec :: "int \<Rightarrow> string" where
  "int_to_dec i = (if i < 0 then CHR ''-'' # nat_to_dec (nat (- i)) else nat_to_dec (nat i))"

text \<open>
  The string form of a primitive value. A number below \<open>10\<^sup>2\<^sup>1\<close> in absolute value is
  printed in decimal digits. (The last equations are never reached: objects and functions
  are converted to a primitive first.)
\<close>

definition number_to_string :: "Realm \<Rightarrow> int \<Rightarrow> string" where
  "number_to_string R n =
     (if \<bar>n\<bar> < 1000000000000000000000 then int_to_dec n else number_string R n)"

fun prim_String :: "Realm \<Rightarrow> jsval \<Rightarrow> string" where
  "prim_String R JUndefined = ''undefined''"
| "prim_String R JNull = ''null''"
| "prim_String R (JBool b) = (if b then ''true'' else ''false'')"
| "prim_String R (JNum n) = number_to_string R n"
| "prim_String R JNaN = ''NaN''"
| "prim_String R (JStr s) = s"
| "prim_String R (JObj a ps) = []"
| "prim_String R (JFun f) = []"

text \<open>
  \<^verbatim>\<open>s.includes(t)\<close>: \<open>t\<close> occurs in \<open>s\<close> as a contiguous block.
\<close>

fun starts_with :: "string \<Rightarrow> string \<Rightarrow> bool" where
  "starts_with s [] = True"
| "starts_with [] (c # t) = False"
| "starts_with (d # s) (c # t) = (d = c \<and> starts_with s t)"

fun str_includes :: "string \<Rightarrow> string \<Rightarrow> bool" where
  "str_includes [] t = (t = [])"
| "str_includes (c # s) t = (starts_with (c # s) t \<or> str_includes s t)"

text \<open>
  The own properties of a string: its length and its characters by index.
\<close>

definition str_prop :: "string \<Rightarrow> string \<Rightarrow> jsval" where
  "str_prop s part =
     (if part = ''length'' then JNum (int (length s))
      else (case find (\<lambda>i. nat_to_dec i = part) [0 ..< length s] of
              Some i \<Rightarrow> JStr [s ! i]
            | None \<Rightarrow> JUndefined))"

text \<open>
  The optional property read \<^verbatim>\<open>value?.[part]\<close>: \<^verbatim>\<open>undefined\<close> on \<^verbatim>\<open>undefined\<close> and
  \<^verbatim>\<open>null\<close>; otherwise the own property, and where there is none what the prototype chain
  gives. On a built-in function object the properties \<^verbatim>\<open>caller\<close> and \<^verbatim>\<open>arguments\<close> are
  accessors inherited from \<^verbatim>\<open>Function.prototype\<close> that raise a \<^verbatim>\<open>TypeError\<close>. These
  are the reads that raise on the values of the model; an object whose prototype has
  other accessors that raise is outside the model, as is an object with own accessors.
\<close>

fun getProp :: "Realm \<Rightarrow> jsval \<Rightarrow> string \<Rightarrow> exn + jsval" where
  "getProp R JUndefined part = Inr JUndefined"
| "getProp R JNull part = Inr JUndefined"
| "getProp R (JObj a ps) part =
     (case map_of ps part of
        Some v \<Rightarrow> Inr v
      | None \<Rightarrow> Inr (inherited R (JObj a ps) part))"
| "getProp R (JStr s) part =
     (case str_prop s part of
        JUndefined \<Rightarrow> Inr (inherited R (JStr s) part)
      | v \<Rightarrow> Inr v)"
| "getProp R (JFun f) part =
     (if part = ''caller'' \<or> part = ''arguments'' then Inl TypeError
      else Inr (inherited R (JFun f) part))"
| "getProp R (JBool b) part = Inr (inherited R (JBool b) part)"
| "getProp R (JNum n) part = Inr (inherited R (JNum n) part)"
| "getProp R JNaN part = Inr (inherited R JNaN part)"

text \<open>
  \<^verbatim>\<open>String(v)\<close>. A primitive has its string form. An object or a function is converted
  to a primitive first: its \<^verbatim>\<open>toString\<close> property is read and, when it is a function,
  called; a result that is not an object is the primitive. Otherwise the same is tried
  with \<^verbatim>\<open>valueOf\<close>, and when that gives no primitive either a \<^verbatim>\<open>TypeError\<close> is raised.
\<close>

fun is_object :: "jsval \<Rightarrow> bool" where
  "is_object (JObj a ps) = True"
| "is_object (JFun f) = True"
| "is_object _ = False"

definition try_method :: "Realm \<Rightarrow> jsval \<Rightarrow> jsval \<Rightarrow> exn + jsval option" where
  "try_method R method this =
     (case method of
        JFun f \<Rightarrow>
          (case call R f this of
             Inl e \<Rightarrow> Inl e
           | Inr r \<Rightarrow> Inr (if is_object r then None else Some r))
      | _ \<Rightarrow> Inr None)"

definition to_primitive :: "Realm \<Rightarrow> jsval \<Rightarrow> exn + jsval" where
  "to_primitive R v =
     (case getProp R v ''toString'' of
        Inl e \<Rightarrow> Inl e
      | Inr m1 \<Rightarrow>
          (case try_method R m1 v of
             Inl e \<Rightarrow> Inl e
           | Inr (Some r) \<Rightarrow> Inr r
           | Inr None \<Rightarrow>
               (case getProp R v ''valueOf'' of
                  Inl e \<Rightarrow> Inl e
                | Inr m2 \<Rightarrow>
                    (case try_method R m2 v of
                       Inl e \<Rightarrow> Inl e
                     | Inr (Some r) \<Rightarrow> Inr r
                     | Inr None \<Rightarrow> Inl TypeError))))"

definition js_String :: "Realm \<Rightarrow> jsval \<Rightarrow> exn + string" where
  "js_String R v =
     (if is_object v then
        (case to_primitive R v of
           Inl e \<Rightarrow> Inl e
         | Inr r \<Rightarrow> Inr (prim_String R r))
      else Inr (prim_String R v))"

section \<open>Field lookup and conditions\<close>

text \<open>\<^verbatim>\<open>field.split('.')\<close>: always at least one part, empty parts kept.\<close>

fun split_dot :: "string \<Rightarrow> string list" where
  "split_dot [] = [[]]"
| "split_dot (c # cs) =
     (if c = CHR ''.'' then [] # split_dot cs
      else (case split_dot cs of
              [] \<Rightarrow> [[c]]
            | p # ps \<Rightarrow> (c # p) # ps))"

text \<open>
  The loop of \<^verbatim>\<open>getFieldValue\<close>: one optional property read per part, left as soon as
  the value is \<^verbatim>\<open>undefined\<close>. A read that raises ends the method.
\<close>

fun descend :: "Realm \<Rightarrow> jsval \<Rightarrow> string list \<Rightarrow> exn + jsval" where
  "descend R v [] = Inr v"
| "descend R v (part # parts) =
     (case getProp R v part of
        Inl e \<Rightarrow> Inl e
      | Inr v' \<Rightarrow> if v' = JUndefined then Inr JUndefined else descend R v' parts)"

text \<open>
  The context is handed to the engine by reference. Every operation that receives it
  returns it beside its result, so that a write to it would show in the model.
\<close>

definition getFieldValue :: "Realm \<Rightarrow> jsval \<Rightarrow> string \<Rightarrow> (exn + jsval) \<times> jsval" where
  "getFieldValue R context field = (descend R context (split_dot field), context)"

text \<open>
  \<^verbatim>\<open>fieldValue.includes(conditionValue)\<close> and \<^verbatim>\<open>fieldValue.length\<close>, which the engine
  reaches only behind a \<^verbatim>\<open>typeof ... === 'string'\<close> guard.
\<close>

fun js_includes :: "jsval \<Rightarrow> jsval \<Rightarrow> bool" where
  "js_includes (JStr f) (JStr c) = str_includes f c"
| "js_includes _ _ = False"

fun js_length :: "jsval \<Rightarrow> nat" where
  "js_length (JStr f) = length f"
| "js_length _ = 0"

text \<open>\<^verbatim>\<open>evaluateCondition\<close>: the \<^verbatim>\<open>switch\<close> over the operator, in the source's order.\<close>

definition evaluateCondition :: "jsval \<Rightarrow> string \<Rightarrow> jsval \<Rightarrow> bool" where
  "evaluateCondition fieldValue operator conditionValue =
     (if operator = ''equals'' then strict_eq fieldValue conditionValue
      else if operator = ''not_equals'' then \<not> strict_eq fieldValue conditionValue
      else if operator = ''contains'' then
        typeof fieldValue = ''string'' \<and> typeof conditionValue = ''string''
          \<and> js_includes fieldValue conditionValue
      else if operator = ''greater_than'' then
        fieldValue \<noteq> JUndefined \<and> typeof fieldValue = ''number''
          \<and> typeof conditionValue = ''number'' \<and> num_greater fieldValue conditionValue
      else if operator = ''less_than'' then
        fieldValue \<noteq> JUndefined \<and> typeof fieldValue = ''number''
          \<and> typeof conditionValue = ''number'' \<and> num_less fieldValue conditionValue
      else if operator = ''is_empty'' then
        \<not> truthy fieldValue \<or> (typeof fieldValue = ''string'' \<and> js_length fieldValue = 0)
      else if operator = ''is_not_empty'' then
        fieldValue \<noteq> JUndefined \<and> fieldValue \<noteq> JNull
          \<and> (typeof fieldValue \<noteq> ''string'' \<or> js_length fieldValue > 0)
      else False)"

section \<open>Rules\<close>

record AutomationTrigger =
  trigger_type :: string
  trigger_parameters :: "props option"

record AutomationCondition =
  field :: string
  operator :: string
  cond_value :: jsval

record AutomationAction =
  action_type :: string
  action_parameters :: props

record AutomationRule =
  rule_id :: string
  name :: string
  description :: string
  trigger :: AutomationTrigger
  conditions :: "AutomationCondition list"
  actions :: "AutomationAction list"
  enabled :: bool

text \<open>
  \<^verbatim>\<open>evaluateConditions\<close>: true on the empty list, otherwise the conditions in order, left
  at the first one that fails. Nothing catches what the lookup raises.
\<close>

fun evaluateConditions_loop ::
  "Realm \<Rightarrow> AutomationCondition list \<Rightarrow> jsval \<Rightarrow> (exn + bool) \<times> jsval" where
  "evaluateConditions_loop R [] context = (Inr True, context)"
| "evaluateConditions_loop R (condition # rest) context =
     (case getFieldValue R context (field condition) of
        (Inl e, context1) \<Rightarrow> (Inl e, context1)
      | (Inr fieldValue, context1) \<Rightarrow>
          if \<not> evaluateCondition fieldValue (operator condition) (cond_value condition)
          then (Inr False, context1)
          else evaluateConditions_loop R rest context1)"

definition evaluateConditions ::
  "Realm \<Rightarrow> AutomationCondition list \<Rightarrow> jsval \<Rightarrow> (exn + bool) \<times> jsval" where
  "evaluateConditions R conds context =
     (if length conds = 0 then (Inr True, context) else evaluateConditions_loop R conds context)"

section \<open>Template interpolation\<close>

text \<open>\<^verbatim>\<open>path.trim()\<close>: white space and line terminators off both ends.\<close>

definition is_ws :: "char \<Rightarrow> bool" where
  "is_ws c = (c \<in> set [CHR 0x09, CHR 0x0A, CHR 0x0B, CHR 0x0C, CHR 0x0D, CHR 0x20, CHR 0xA0])"

definition trim :: "string \<Rightarrow> string" where
  "trim s = rev (dropWhile is_ws (rev (dropWhile is_ws s)))"

text \<open>
  One attempt of the regular expression \<^verbatim>\<open>/\{\{([^}]+)\}\}/\<close> at the head of a string:
  two opening braces, the longest non-empty run of characters other than a closing
  brace, two closing braces. A shorter run cannot match, since the character after it is
  not a closing brace. The result is the captured group and the text after the match.
\<close>

definition match_token :: "string \<Rightarrow> (string \<times> string) option" where
  "match_token s =
     (case s of
        c1 # c2 # t \<Rightarrow>
          if c1 = CHR ''{'' \<and> c2 = CHR ''{'' then
            (let path = takeWhile (\<lambda>c. c \<noteq> CHR ''}'') t;
                 after = dropWhile (\<lambda>c. c \<noteq> CHR ''}'') t
             in if path \<noteq> [] \<and> starts_with after ''}}''
                then Some (path, drop 2 after) else None)
          else None
      | _ \<Rightarrow> None)"

lemma match_token_shorter:
  "match_token s = Some (path, rest) \<Longrightarrow> length rest < length s"
proof -
  assume m: "match_token s = Some (path, rest)"
  then obtain c1 c2 t where s: "s = c1 # c2 # t"
    by (auto simp: match_token_def split: list.splits)
  from m s have "rest = drop 2 (dropWhile (\<lambda>c. c \<noteq> CHR ''}'') t)"
    by (auto simp: match_token_def Let_def split: if_splits)
  then have "length rest \<le> length t"
    using length_dropWhile_le [of "\<lambda>c. c \<noteq> CHR ''}''" t] by simp
  with s show ?thesis by simp
qed

text \<open>
  \<^verbatim>\<open>template.replace(re, callback)\<close> with the global flag: the string is read from the
  left; where the expression matches, the callback's result replaces the match and
  reading goes on after it; elsewhere the character is copied. The callback looks the
  trimmed path up and returns the string form of the value, or the match itself when the
  value is \<^verbatim>\<open>undefined\<close>. What the callback raises ends the replacement.
\<close>

function replace_tokens :: "Realm \<Rightarrow> jsval \<Rightarrow> string \<Rightarrow> (exn + string) \<times> jsval" where
  "replace_tokens R context [] = (Inr [], context)"
| "replace_tokens R context (c # cs) =
     (case match_token (c # cs) of
        None \<Rightarrow>
          (case replace_tokens R context cs of
             (Inl e, context1) \<Rightarrow> (Inl e, context1)
           | (Inr out, context1) \<Rightarrow> (Inr (c # out), context1))
      | Some (path, rest) \<Rightarrow>
          (case getFieldValue R context (trim path) of
             (Inl e, context1) \<Rightarrow> (Inl e, context1)
           | (Inr v, context1) \<Rightarrow>
               (case (if v \<noteq> JUndefined then js_String R v else Inr (''{{'' @ path @ ''}}'')) of
                  Inl e \<Rightarrow> (Inl e, context1)
                | Inr replacement \<Rightarrow>
                    (case replace_tokens R context1 rest of
                       (Inl e, context2) \<Rightarrow> (Inl e, context2)
                     | (Inr out, context2) \<Rightarrow> (Inr (replacement @ out), context2)))))"
  by pat_completeness auto
termination
  by (relation "measure (\<lambda>(R, context, s). length s)") (auto dest: match_token_shorter)

definition interpolateString :: "Realm \<Rightarrow> jsval \<Rightarrow> jsval \<Rightarrow> (exn + string) \<times> jsval" where
  "interpolateString R template context =
     (case template of
        JStr s \<Rightarrow> replace_tokens R context s
      | _ \<Rightarrow> (Inl TypeError, context))"

section \<open>The engine, its collaborators and what can be observed\<close>

text \<open>
  What a run of the engine does to the outside is recorded as a trace of events: the
  notices shown, the files created, the console output. The trace also records the calls
  \<^verbatim>\<open>evaluateConditions(rule.conditions, context)\<close>, \<^verbatim>\<open>executeActions(rule.actions, context)\<close>
  and \<^verbatim>\<open>executeAction(action, context)\<close>, so that what is evaluated and what is executed can
  be stated.
\<close>

datatype event =
    EvaluateConditions AutomationRule
  | ExecuteActions AutomationRule
  | ExecuteAction AutomationAction
  | Notice string
  | VaultCreate string string
  | ConsoleLog string
  | ConsoleWarn string
  | ConsoleError string exn

text \<open>
  The collaborators are not part of the engine: \<^verbatim>\<open>new Notice(message)\<close>,
  \<^verbatim>\<open>this.app.vault.create(path, content)\<close> and \<^verbatim>\<open>this.app.vault.getAbstractFileByPath(path)\<close>
  may fail, depending on their arguments and on what happened before. \<open>None\<close> is success.
\<close>

record Collaborators =
  notice_fails :: "event list \<Rightarrow> string \<Rightarrow> exn option"
  vault_create_fails :: "event list \<Rightarrow> string \<Rightarrow> string \<Rightarrow> exn option"
  vault_lookup_fails :: "event list \<Rightarrow> string \<Rightarrow> exn option"

text \<open>
  The fields of the class: \<^verbatim>\<open>rules\<close> is a \<^verbatim>\<open>Map\<close>, which iterates in insertion order,
  and \<^verbatim>\<open>isEnabled\<close> the global switch. The trace stands for the outside world.
\<close>

record AutomationEngine =
  rules :: "(string \<times> AutomationRule) list"
  isEnabled :: bool
  trace :: "event list"

definition emit :: "event list \<Rightarrow> AutomationEngine \<Rightarrow> AutomationEngine" where
  "emit evs st = st\<lparr>trace := trace st @ evs\<rparr>"

text \<open>The constructor: no rules, the switch taken from the settings.\<close>

definition new_engine :: "bool \<Rightarrow> AutomationEngine" where
  "new_engine enableAutomation = \<lparr>rules = [], isEnabled = enableAutomation, trace = []\<rparr>"

text \<open>\<^verbatim>\<open>Map.set\<close>, \<^verbatim>\<open>Map.delete\<close>, \<^verbatim>\<open>Map.get\<close> and \<^verbatim>\<open>Map.values\<close>.\<close>

fun Map_set :: "string \<Rightarrow> 'v \<Rightarrow> (string \<times> 'v) list \<Rightarrow> (string \<times> 'v) list" where
  "Map_set k v [] = [(k, v)]"
| "Map_set k v ((k', v') # m) = (if k' = k then (k, v) # m else (k', v') # Map_set k v m)"

definition Map_delete :: "string \<Rightarrow> (string \<times> 'v) list \<Rightarrow> (string \<times> 'v) list" where
  "Map_delete k m = filter (\<lambda>entry. fst entry \<noteq> k) m"

definition Map_get :: "(string \<times> 'v) list \<Rightarrow> string \<Rightarrow> 'v option" where
  "Map_get m k = map_of m k"

definition Map_values :: "(string \<times> 'v) list \<Rightarrow> 'v list" where
  "Map_values m = map snd m"

section \<open>Actions\<close>

text \<open>\<^verbatim>\<open>parameters.key\<close>: \<^verbatim>\<open>undefined\<close> when the record has no such key.\<close>

definition param :: "props \<Rightarrow> string \<Rightarrow> jsval" where
  "param parameters k = (case map_of parameters k of Some v \<Rightarrow> v | None \<Rightarrow> JUndefined)"

text \<open>
  Every action handler returns the exception it raised, if any, the context and the
  engine.
\<close>

definition sendNotification ::
  "Realm \<Rightarrow> Collaborators \<Rightarrow> props \<Rightarrow> jsval \<Rightarrow> AutomationEngine \<Rightarrow> exn option \<times> jsval \<times> AutomationEngine" where
  "sendNotification R c parameters context st =
     (case interpolateString R (param parameters ''message'') context of
        (Inl e, context1) \<Rightarrow> (Some e, context1, st)
      | (Inr message, context1) \<Rightarrow>
          (case notice_fails c (trace st) message of
             Some e \<Rightarrow> (Some e, context1, st)
           | None \<Rightarrow>
               (None, context1,
                emit [Notice message,
                      ConsoleLog (''Notification created for message: '' @ message)] st)))"

definition createTask ::
  "Realm \<Rightarrow> Collaborators \<Rightarrow> props \<Rightarrow> jsval \<Rightarrow> AutomationEngine \<Rightarrow> exn option \<times> jsval \<times> AutomationEngine" where
  "createTask R c parameters context st =
     (case interpolateString R (param parameters ''title'') context of
        (Inl e, context1) \<Rightarrow> (Some e, context1, st)
      | (Inr title, context1) \<Rightarrow>
          (None, context1,
           emit [ConsoleLog (''Automation: Creating task \"'' @ title @ ''\"'')] st))"

text \<open>
  \<^verbatim>\<open>parameters.taskId ?? context.task?.id\<close>: the right operand is read only when the left
  one is \<^verbatim>\<open>null\<close> or \<^verbatim>\<open>undefined\<close>; the plain read \<^verbatim>\<open>context.task\<close> raises on a context
  that is \<^verbatim>\<open>null\<close> or \<^verbatim>\<open>undefined\<close>.
\<close>

definition taskId_of :: "Realm \<Rightarrow> props \<Rightarrow> jsval \<Rightarrow> exn + jsval" where
  "taskId_of R parameters context =
     (let p = param parameters ''taskId'' in
      if p = JNull \<or> p = JUndefined then
        (if context = JNull \<or> context = JUndefined then Inl TypeError
         else
           (case getProp R context ''task'' of
              Inl e \<Rightarrow> Inl e
            | Inr task \<Rightarrow> getProp R task ''id''))
      else Inr p)"

text \<open>The template literal in the log line converts the id to a string.\<close>

definition updateTask ::
  "Realm \<Rightarrow> Collaborators \<Rightarrow> props \<Rightarrow> jsval \<Rightarrow> AutomationEngine \<Rightarrow> exn option \<times> jsval \<times> AutomationEngine" where
  "updateTask R c parameters context st =
     (case taskId_of R parameters context of
        Inl e \<Rightarrow> (Some e, context, st)
      | Inr taskId \<Rightarrow>
          if truthy taskId then
            (case js_String R taskId of
               Inl e \<Rightarrow> (Some e, context, st)
             | Inr s \<Rightarrow>
                 (None, context, emit [ConsoleLog (''Automation: Updating task '' @ s)] st))
          else (None, context, st))"

definition createNote ::
  "Realm \<Rightarrow> Collaborators \<Rightarrow> props \<Rightarrow> jsval \<Rightarrow> AutomationEngine \<Rightarrow> exn option \<times> jsval \<times> AutomationEngine" where
  "createNote R c parameters context st =
     (case interpolateString R (param parameters ''content'') context of
        (Inl e, context1) \<Rightarrow> (Some e, context1, st)
      | (Inr content, context1) \<Rightarrow>
          (case interpolateString R (param parameters ''path'') context1 of
             (Inl e, context2) \<Rightarrow> (Some e, context2, st)
           | (Inr path, context2) \<Rightarrow>
               (case vault_create_fails c (trace st) path content of
                  Some e \<Rightarrow>
                    (None, context2,
                     emit [ConsoleError ''Error creating note via automation:'' e] st)
                | None \<Rightarrow> (None, context2, emit [VaultCreate path content] st))))"

definition updateStatus ::
  "Realm \<Rightarrow> Collaborators \<Rightarrow> props \<Rightarrow> jsval \<Rightarrow> AutomationEngine \<Rightarrow> exn option \<times> jsval \<times> AutomationEngine" where
  "updateStatus R c parameters context st =
     (if strict_eq (param parameters ''type'') (JStr ''milestone'')
      then (None, context, emit [ConsoleLog ''Automation: Checking milestone completion''] st)
      else (None, context, st))"

text \<open>\<^verbatim>\<open>executeAction\<close>: the \<^verbatim>\<open>switch\<close> over the action type; \<^verbatim>\<open>send_email\<close> has no case.\<close>

definition executeAction ::
  "Realm \<Rightarrow> Collaborators \<Rightarrow> AutomationAction \<Rightarrow> jsval \<Rightarrow> AutomationEngine \<Rightarrow> exn option \<times> jsval \<times> AutomationEngine" where
  "executeAction R c action context st =
     (if action_type action = ''send_notification''
        then sendNotification R c (action_parameters action) context st
      else if action_type action = ''create_task''
        then createTask R c (action_parameters action) context st
      else if action_type action = ''update_task''
        then updateTask R c (action_parameters action) context st
      else if action_type action = ''create_note''
        then createNote R c (action_parameters action) context st
      else if action_type action = ''update_status''
        then updateStatus R c (action_parameters action) context st
      else (None, context,
            emit [ConsoleWarn (''Unknown automation action type: '' @ action_type action)] st))"

text \<open>
  \<^verbatim>\<open>try { ... } catch (error) { ... }\<close>: the handler runs on what the body left when it
  raised.
\<close>

definition try_catch ::
  "exn option \<times> jsval \<times> AutomationEngine \<Rightarrow>
   (exn \<Rightarrow> jsval \<Rightarrow> AutomationEngine \<Rightarrow> exn option \<times> jsval \<times> AutomationEngine) \<Rightarrow>
   exn option \<times> jsval \<times> AutomationEngine" where
  "try_catch body handler =
     (case body of
        (None, context, st) \<Rightarrow> (None, context, st)
      | (Some e, context, st) \<Rightarrow> handler e context st)"

text \<open>\<^verbatim>\<open>executeActions\<close>: each action in its own \<^verbatim>\<open>try\<close>; the handler logs the error.\<close>

fun executeActions ::
  "Realm \<Rightarrow> Collaborators \<Rightarrow> AutomationAction list \<Rightarrow> jsval \<Rightarrow> AutomationEngine \<Rightarrow> exn option \<times> jsval \<times> AutomationEngine" where
  "executeActions R c [] context st = (None, context, st)"
| "executeActions R c (action # rest) context st =
     (case try_catch
             (executeAction R c action context (emit [ExecuteAction action] st))
             (\<lambda>error context1 st1.
                (None, context1,
                 emit [ConsoleError ''Error executing automation action:'' error] st1)) of
        (Some e, context1, st1) \<Rightarrow> (Some e, context1, st1)
      | (None, context1, st1) \<Rightarrow> executeActions R c rest context1 st1)"

section \<open>Dispatch\<close>

text \<open>
  The loop of \<^verbatim>\<open>triggerAutomation\<close> over the applicable rules: an exception of a step,
  be it the evaluation of the conditions or the execution of the actions, ends the loop
  and leaves the method.
\<close>

fun run_rules ::
  "Realm \<Rightarrow> Collaborators \<Rightarrow> AutomationRule list \<Rightarrow> jsval \<Rightarrow> AutomationEngine \<Rightarrow> exn option \<times> jsval \<times> AutomationEngine" where
  "run_rules R c [] context st = (None, context, st)"
| "run_rules R c (rule # rest) context st =
     (case evaluateConditions R (conditions rule) context of
        (Inl e, context1) \<Rightarrow> (Some e, context1, emit [EvaluateConditions rule] st)
      | (Inr ok, context1) \<Rightarrow>
          if ok then
            (case executeActions R c (actions rule) context1
                    (emit [EvaluateConditions rule, ExecuteActions rule] st) of
               (Some e, context2, st2) \<Rightarrow> (Some e, context2, st2)
             | (None, context2, st2) \<Rightarrow> run_rules R c rest context2 st2)
          else run_rules R c rest context1 (emit [EvaluateConditions rule] st))"

definition applicableRules :: "AutomationEngine \<Rightarrow> string \<Rightarrow> AutomationRule list" where
  "applicableRules st triggerType =
     filter (\<lambda>rule. enabled rule \<and> trigger_type (trigger rule) = triggerType)
       (Map_values (rules st))"

definition triggerAutomation ::
  "Realm \<Rightarrow> Collaborators \<Rightarrow> string \<Rightarrow> jsval \<Rightarrow> AutomationEngine \<Rightarrow> exn option \<times> jsval \<times> AutomationEngine" where
  "triggerAutomation R c triggerType context st =
     (if \<not> isEnabled st then (None, context, st)
      else run_rules R c (applicableRules st triggerType) context st)"

section \<open>Rule management\<close>

definition addRule :: "AutomationRule \<Rightarrow> AutomationEngine \<Rightarrow> AutomationEngine" where
  "addRule rule st = st\<lparr>rules := Map_set (rule_id rule) rule (rules st)\<rparr>"

definition removeRule :: "string \<Rightarrow> AutomationEngine \<Rightarrow> AutomationEngine" where
  "removeRule ruleId st = st\<lparr>rules := Map_delete ruleId (rules st)\<rparr>"

definition enableRule :: "string \<Rightarrow> AutomationEngine \<Rightarrow> AutomationEngine" where
  "enableRule ruleId st =
     (case Map_get (rules st) ruleId of
        Some rule \<Rightarrow> st\<lparr>rules := Map_set ruleId (rule\<lparr>enabled := True\<rparr>) (rules st)\<rparr>
      | None \<Rightarrow> st)"

definition disableRule :: "string \<Rightarrow> AutomationEngine \<Rightarrow> AutomationEngine" where
  "disableRule ruleId st =
     (case Map_get (rules st) ruleId of
        Some rule \<Rightarrow> st\<lparr>rules := Map_set ruleId (rule\<lparr>enabled := False\<rparr>) (rules st)\<rparr>
      | None \<Rightarrow> st)"

definition getRules :: "AutomationEngine \<Rightarrow> AutomationRule list" where
  "getRules st = Map_values (rules st)"

definition getRule :: "string \<Rightarrow> AutomationEngine \<Rightarrow> AutomationRule option" where
  "getRule ruleId st = Map_get (rules st) ruleId"

definition setEnabled :: "bool \<Rightarrow> AutomationEngine \<Rightarrow> AutomationEngine" where
  "setEnabled b st = st\<lparr>isEnabled := b\<rparr>"

definition isAutomationEnabled :: "AutomationEngine \<Rightarrow> bool" where
  "isAutomationEnabled st = isEnabled st"

section \<open>Initialisation\<close>

text \<open>
  The three default rules. The literal of the first condition of the first rule is
  \<^verbatim>\<open>new Date().toISOString()\<close>, a string that depends on the clock: it is a parameter.
\<close>

definition overdue_task_notification :: "string \<Rightarrow> AutomationRule" where
  "overdue_task_notification nowISO =
     \<lparr>rule_id = ''overdue-task-notification'',
      name = ''Overdue Task Notification'',
      description = ''Send notification when tasks become overdue'',
      trigger = \<lparr>trigger_type = ''daily_schedule'', trigger_parameters = None\<rparr>,
      conditions =
        [\<lparr>field = ''dueDate'', operator = ''less_than'', cond_value = JStr nowISO\<rparr>,
         \<lparr>field = ''status'', operator = ''not_equals'', cond_value = JStr ''done''\<rparr>],
      actions =
        [\<lparr>action_type = ''send_notification'',
          action_parameters = [(''message'', JStr ''You have overdue tasks!'')]\<rparr>],
      enabled = True\<rparr>"

definition task_completion_milestone :: AutomationRule where
  "task_completion_milestone =
     \<lparr>rule_id = ''task-completion-milestone'',
      name = ''Check Milestones on Task Completion'',
      description = ''Check if milestones are reached when tasks are completed'',
      trigger = \<lparr>trigger_type = ''task_completed'', trigger_parameters = None\<rparr>,
      conditions = [],
      actions =
        [\<lparr>action_type = ''update_status'',
          action_parameters = [(''type'', JStr ''milestone'')]\<rparr>],
      enabled = True\<rparr>"

definition high_priority_notification :: AutomationRule where
  "high_priority_notification =
     \<lparr>rule_id = ''high-priority-notification'',
      name = ''High Priority Task Alert'',
      description = ''Send immediate notification for high priority tasks'',
      trigger = \<lparr>trigger_type = ''task_created'', trigger_parameters = None\<rparr>,
      conditions =
        [\<lparr>field = ''priority'', operator = ''equals'', cond_value = JStr ''high''\<rparr>],
      actions =
        [\<lparr>action_type = ''send_notification'',
          action_parameters =
            [(''message'', JStr ''High priority task created: {{task.title}}'')]\<rparr>],
      enabled = True\<rparr>"

definition defaultRules :: "string \<Rightarrow> AutomationRule list" where
  "defaultRules nowISO =
     [overdue_task_notification nowISO, task_completion_milestone, high_priority_notification]"

definition loadDefaultRules :: "string \<Rightarrow> AutomationEngine \<Rightarrow> AutomationEngine" where
  "loadDefaultRules nowISO st =
     st\<lparr>rules := fold (\<lambda>rule m. Map_set (rule_id rule) rule m) (defaultRules nowISO) (rules st)\<rparr>"

text \<open>
  \<^verbatim>\<open>loadCustomRules\<close> looks the automation folder up and does nothing with it; a failure
  of the lookup is logged.
\<close>

definition loadCustomRules :: "Collaborators \<Rightarrow> string \<Rightarrow> AutomationEngine \<Rightarrow> AutomationEngine" where
  "loadCustomRules c projectsFolder st =
     (case vault_lookup_fails c (trace st) (projectsFolder @ ''/Automation'') of
        Some e \<Rightarrow> emit [ConsoleError ''Error loading custom automation rules:'' e] st
      | None \<Rightarrow> st)"

text \<open>
  \<^verbatim>\<open>initialize\<close>, up to the arming of the daily timer, which is \<open>setupDailySchedule\<close> below.
\<close>

definition initialize ::
  "Collaborators \<Rightarrow> string \<Rightarrow> string \<Rightarrow> AutomationEngine \<Rightarrow> AutomationEngine" where
  "initialize c projectsFolder nowISO st =
     (if \<not> isEnabled st then st
      else loadCustomRules c projectsFolder (loadDefaultRules nowISO st))"

text \<open>
  \<^verbatim>\<open>runDailyAutomation\<close> dispatches the daily trigger on a fresh context object, at the
  address \<open>a\<close>.
\<close>

definition runDailyAutomation ::
  "Realm \<Rightarrow> Collaborators \<Rightarrow> nat \<Rightarrow> string \<Rightarrow> AutomationEngine \<Rightarrow> exn option \<times> jsval \<times> AutomationEngine" where
  "runDailyAutomation R c a nowISO st =
     triggerAutomation R c ''daily_schedule''
       (JObj a [(''date'', JStr nowISO), (''type'', JStr ''daily_check'')]) st"

section \<open>The daily schedule\<close>

text \<open>
  Local wall-clock time is counted in milliseconds from a local midnight, in a zone
  without daylight-saving changes, so that every calendar day has 24 hours. Timers are
  taken to fire exactly when they are due.
\<close>

definition ms_per_day :: int where
  "ms_per_day = 24 * 60 * 60 * 1000"

text \<open>\<^verbatim>\<open>d.setDate(d.getDate() + 1)\<close>: the same time of day, one calendar day later.\<close>

definition setDate_next :: "int \<Rightarrow> int" where
  "setDate_next t = t + ms_per_day"

text \<open>\<^verbatim>\<open>d.setHours(h, m, s, ms)\<close>: the given time of day on the calendar day of \<open>d\<close>.\<close>

definition setHours :: "int \<Rightarrow> int \<Rightarrow> int \<Rightarrow> int \<Rightarrow> int \<Rightarrow> int" where
  "setHours h m s ms t =
     (t div ms_per_day) * ms_per_day + h * 3600000 + m * 60000 + s * 1000 + ms"

text \<open>
  \<^verbatim>\<open>setupDailySchedule\<close> at the time \<open>now\<close>: the delay given to \<^verbatim>\<open>setTimeout\<close> and the period
  given to \<^verbatim>\<open>setInterval\<close> by the callback of the timeout.
\<close>

definition setupDailySchedule :: "int \<Rightarrow> int \<times> int" where
  "setupDailySchedule now =
     (let tomorrow = setHours 9 0 0 0 (setDate_next now);
          msUntilTomorrow = tomorrow - now
      in (msUntilTomorrow, 24 * 60 * 60 * 1000))"

text \<open>
  The time of the \<open>k\<close>-th daily run, counted from 0: the timeout runs the first one and
  starts the interval, which runs the following ones.
\<close>

definition fire_time :: "int \<Rightarrow> nat \<Rightarrow> int" where
  "fire_time now k =
     (case setupDailySchedule now of (delay, period) \<Rightarrow> now + delay + int k * period)"

text \<open>
  The specification's schedule: the next occurrence of 09:00 strictly after \<open>now\<close>, that
  is today's when \<open>now\<close> is before it and tomorrow's otherwise.
\<close>

definition spec_next_occurrence :: "int \<Rightarrow> int" where
  "spec_next_occurrence now =
     (let today_target = setHours 9 0 0 0 now
      in if now < today_target then today_target else today_target + ms_per_day)"

section \<open>The specification's reading of a template\<close>












section \<open>Reading a trace\<close>

text \<open>The events a run added to the trace.\<close>

definition new_events :: "AutomationEngine \<Rightarrow> AutomationEngine \<Rightarrow> event list" where
  "new_events st st' = drop (length (trace st)) (trace st')"

text \<open>The events that record a call, as opposed to an effect on the outside.\<close>

fun is_call :: "event \<Rightarrow> bool" where
  "is_call (EvaluateConditions rule) = True"
| "is_call (ExecuteActions rule) = True"
| "is_call (ExecuteAction action) = True"
| "is_call _ = False"

text \<open>The actions that \<open>executeAction\<close> was called on, in the order of the calls.\<close>

fun executed_actions :: "event list \<Rightarrow> AutomationAction list" where
  "executed_actions [] = []"
| "executed_actions (ExecuteAction action # evs) = action # executed_actions evs"
| "executed_actions (ev # evs) = executed_actions evs"

text \<open>
  The calls that a rule picked by the dispatch gives rise to: its conditions are
  evaluated and, when they hold, its actions are executed one after the other.
\<close>

definition calls_of_rule :: "Realm \<Rightarrow> jsval \<Rightarrow> AutomationRule \<Rightarrow> event list" where
  "calls_of_rule R context rule =
     (if fst (evaluateConditions R (conditions rule) context) = Inr True
      then EvaluateConditions rule # ExecuteActions rule # map ExecuteAction (actions rule)
      else [EvaluateConditions rule])"

text \<open>
  The calls of a dispatch over a list of rules, which ends at the first rule whose
  conditions raise, and the exception it ends with.
\<close>

fun calls_of_rules :: "Realm \<Rightarrow> jsval \<Rightarrow> AutomationRule list \<Rightarrow> event list" where
  "calls_of_rules R context [] = []"
| "calls_of_rules R context (rule # rest) =
     (case fst (evaluateConditions R (conditions rule) context) of
        Inl e \<Rightarrow> [EvaluateConditions rule]
      | Inr ok \<Rightarrow> calls_of_rule R context rule @ calls_of_rules R context rest)"

fun first_raise :: "Realm \<Rightarrow> jsval \<Rightarrow> AutomationRule list \<Rightarrow> exn option" where
  "first_raise R context [] = None"
| "first_raise R context (rule # rest) =
     (case fst (evaluateConditions R (conditions rule) context) of
        Inl e \<Rightarrow> Some e
      | Inr ok \<Rightarrow> first_raise R context rest)"

section \<open>Example runs\<close>

text \<open>
  A realm for the examples. Every object is a plain one: it inherits from
  \<^verbatim>\<open>Object.prototype\<close>, of which the realm lists the constructor and the two conversion
  methods; \<^verbatim>\<open>Object.prototype.toString\<close> gives \<^verbatim>\<open>[object Object]\<close> and
  \<^verbatim>\<open>Object.prototype.valueOf\<close> gives the object itself. Of a function the realm knows
  the name. The examples read nothing else of it.
\<close>

definition sample_inherited :: "jsval \<Rightarrow> string \<Rightarrow> jsval" where
  "sample_inherited v part =
     (case v of
        JObj a ps \<Rightarrow>
          (if part = ''constructor'' then JFun ''Object''
           else if part = ''toString'' then JFun ''Object.prototype.toString''
           else if part = ''valueOf'' then JFun ''Object.prototype.valueOf''
           else JUndefined)
      | JFun f \<Rightarrow> (if part = ''name'' \<and> f = ''Object'' then JStr ''Object'' else JUndefined)
      | _ \<Rightarrow> JUndefined)"

definition sample_call :: "string \<Rightarrow> jsval \<Rightarrow> exn + jsval" where
  "sample_call f this =
     (if f = ''Object.prototype.toString'' then Inr (JStr ''[object Object]'')
      else if f = ''Object.prototype.valueOf'' then Inr this
      else Inr JUndefined)"

definition sample_realm :: Realm where
  "sample_realm =
     \<lparr>inherited = sample_inherited, call = sample_call, number_string = (\<lambda>n. [])\<rparr>"

text \<open>Collaborators that always succeed.\<close>

definition reliable :: Collaborators where
  "reliable =
     \<lparr>notice_fails = (\<lambda>tr message. None),
      vault_create_fails = (\<lambda>tr path content. None),
      vault_lookup_fails = (\<lambda>tr path. None)\<rparr>"

text \<open>
  Two rules on the trigger \<^verbatim>\<open>task_created\<close>, without conditions. The first action of the
  first rule has no \<^verbatim>\<open>message\<close> parameter, so that \<^verbatim>\<open>sendNotification\<close> raises.
\<close>

definition broken_notification :: AutomationAction where
  "broken_notification = \<lparr>action_type = ''send_notification'', action_parameters = []\<rparr>"

definition check_milestone :: AutomationAction where
  "check_milestone =
     \<lparr>action_type = ''update_status'', action_parameters = [(''type'', JStr ''milestone'')]\<rparr>"

definition say_hello :: AutomationAction where
  "say_hello =
     \<lparr>action_type = ''send_notification'', action_parameters = [(''message'', JStr ''hello'')]\<rparr>"

definition first_rule :: AutomationRule where
  "first_rule =
     \<lparr>rule_id = ''first'', name = ''First'', description = [],
      trigger = \<lparr>trigger_type = ''task_created'', trigger_parameters = None\<rparr>,
      conditions = [],
      actions = [broken_notification, check_milestone],
      enabled = True\<rparr>"

definition second_rule :: AutomationRule where
  "second_rule =
     \<lparr>rule_id = ''second'', name = ''Second'', description = [],
      trigger = \<lparr>trigger_type = ''task_created'', trigger_parameters = None\<rparr>,
      conditions = [],
      actions = [say_hello],
      enabled = True\<rparr>"

definition two_rules :: AutomationEngine where
  "two_rules = addRule second_rule (addRule first_rule (new_engine True))"

text \<open>The same registry after \<open>disableRule\<close> on the first rule.\<close>

definition first_disabled :: AutomationEngine where
  "first_disabled = disableRule ''first'' two_rules"

text \<open>
  A rule whose condition reads \<^verbatim>\<open>caller\<close> of the function that the context inherits as
  its \<^verbatim>\<open>constructor\<close>, alone in a registry.
\<close>

definition caller_rule :: AutomationRule where
  "caller_rule =
     \<lparr>rule_id = ''caller'', name = ''Caller'', description = [],
      trigger = \<lparr>trigger_type = ''task_created'', trigger_parameters = None\<rparr>,
      conditions =
        [\<lparr>field = ''constructor.caller'', operator = ''is_empty'', cond_value = JNull\<rparr>],
      actions = [say_hello],
      enabled = True\<rparr>"

definition caller_engine :: AutomationEngine where
  "caller_engine = addRule caller_rule (new_engine True)"


section \<open>Conditions\<close>

text \<open>
  C4. A condition with the operator \<^verbatim>\<open>greater_than\<close> or \<^verbatim>\<open>less_than\<close> is true exactly
  when the field value and the literal are both numbers and the comparison holds between
  them. When one of the two is not a number, an \<^verbatim>\<open>undefined\<close> field value included, the
  condition is false. \<open>evaluateCondition\<close> has no failing branch: its result is a
  truth value on every input.
\<close>

theorem comparison_only_on_numbers:
  "(evaluateCondition fv ''greater_than'' cv \<longleftrightarrow> (\<exists>a b. fv = JNum a \<and> cv = JNum b \<and> b < a))
   \<and> (evaluateCondition fv ''less_than'' cv \<longleftrightarrow> (\<exists>a b. fv = JNum a \<and> cv = JNum b \<and> a < b))
   \<and> (typeof fv \<noteq> ''number'' \<or> typeof cv \<noteq> ''number'' \<longrightarrow>
        \<not> evaluateCondition fv ''greater_than'' cv \<and> \<not> evaluateCondition fv ''less_than'' cv)"
  unfolding evaluateCondition_def
  by (cases fv; cases cv; simp)

theorem comparison_only_on_numbers_witness:
  "typeof JUndefined \<noteq> ''number''
   \<and> \<not> evaluateCondition JUndefined ''greater_than'' (JNum 3)
   \<and> \<not> evaluateCondition JUndefined ''less_than'' (JNum 3)
   \<and> typeof (JStr ''2026-01-01'') \<noteq> ''number''
   \<and> \<not> evaluateCondition (JNum 2) ''less_than'' (JStr ''2026-01-01'')
   \<and> evaluateCondition (JNum 2) ''less_than'' (JNum 3)"
  using comparison_only_on_numbers [of JUndefined "JNum 3"]
    comparison_only_on_numbers [of "JNum 2" "JStr ''2026-01-01''"]
    comparison_only_on_numbers [of "JNum 2" "JNum 3"]
  by simp

lemma descend_undefined: "descend R JUndefined parts = Inr JUndefined"
  by (cases parts) simp_all

lemma descend_append:
  "descend R v (pre @ post) =
     (case descend R v pre of Inl e \<Rightarrow> Inl e | Inr u \<Rightarrow> descend R u post)"
  by (induction pre arbitrary: v) (simp_all add: descend_undefined split: sum.splits)

text \<open>
  C5, as claimed, fails: the path \<^verbatim>\<open>constructor\<close> is missing from the empty context, which
  has no property of its own, and yet \<^verbatim>\<open>is_empty\<close> is false on it, because the lookup
  finds the function that every object inherits under this name.
\<close>

theorem missing_path_not_empty:
  "map_of ([] :: props) ''constructor'' = None
   \<and> fst (evaluateConditions sample_realm
        [\<lparr>field = ''constructor'', operator = ''is_empty'', cond_value = JNull\<rparr>]
        (JObj 0 [])) = Inr False"
  by (simp add: evaluateConditions_def getFieldValue_def evaluateCondition_def sample_realm_def
      sample_inherited_def)

text \<open>
  C5, amended. Take a condition with the operator \<^verbatim>\<open>is_empty\<close> whose dotted field path
  resolves to a value \<open>v\<close> in the context. The condition is true when \<open>v\<close> is \<^verbatim>\<open>undefined\<close>
  and when \<open>v\<close> is the empty string; it is false when \<open>v\<close> is a non-empty string, an object
  or a function. The path resolves to \<^verbatim>\<open>undefined\<close> as soon as one of its parts, at any
  depth, reads as \<^verbatim>\<open>undefined\<close> on the value reached by the parts before it; a part that
  is not a key of an object reads as what the object inherits under this name, which is
  \<^verbatim>\<open>undefined\<close> only when the prototype chain has no such property either.
\<close>

theorem is_empty_on_lookup:
  assumes "operator cond = ''is_empty''"
    and "fst (getFieldValue R context (field cond)) = Inr v"
  shows "(v = JUndefined \<or> v = JStr [] \<longrightarrow> fst (evaluateConditions R [cond] context) = Inr True)
    \<and> ((\<exists>s. v = JStr s \<and> s \<noteq> []) \<or> (\<exists>a ps. v = JObj a ps) \<or> (\<exists>f. v = JFun f) \<longrightarrow>
          fst (evaluateConditions R [cond] context) = Inr False)
    \<and> (\<forall>pre part post u.
          split_dot (field cond) = pre @ part # post \<and> descend R context pre = Inr u
          \<and> getProp R u part = Inr JUndefined \<longrightarrow> v = JUndefined)
    \<and> (\<forall>a ps part. map_of ps part = None \<longrightarrow>
          getProp R (JObj a ps) part = Inr (inherited R (JObj a ps) part))"
proof -
  have run: "fst (evaluateConditions R [cond] context)
      = Inr (evaluateCondition v ''is_empty'' (cond_value cond))"
    using assms by (simp add: evaluateConditions_def getFieldValue_def)
  have missing: "v = JUndefined"
    if "split_dot (field cond) = pre @ part # post" and "descend R context pre = Inr u"
      and "getProp R u part = Inr JUndefined" for pre part post u
  proof -
    have "descend R context (pre @ part # post) = Inr JUndefined"
      using that(2,3) by (simp add: descend_append)
    with assms(2) that(1) show ?thesis
      by (simp add: getFieldValue_def)
  qed
  show ?thesis
    unfolding run using missing by (auto simp: evaluateCondition_def)
qed

theorem is_empty_on_lookup_witness:
  "fst (getFieldValue sample_realm (JObj 0 [(''task'', JObj 1 [(''title'', JStr ''T'')])])
          ''task.dueDate'')
     = Inr JUndefined
   \<and> fst (evaluateConditions sample_realm
        [\<lparr>field = ''task.dueDate'', operator = ''is_empty'', cond_value = JNull\<rparr>]
        (JObj 0 [(''task'', JObj 1 [(''title'', JStr ''T'')])])) = Inr True
   \<and> fst (getFieldValue sample_realm (JObj 0 [(''task'', JObj 1 [(''title'', JStr ''T'')])])
          ''task.title'')
     = Inr (JStr ''T'')
   \<and> fst (evaluateConditions sample_realm
        [\<lparr>field = ''task.title'', operator = ''is_empty'', cond_value = JNull\<rparr>]
        (JObj 0 [(''task'', JObj 1 [(''title'', JStr ''T'')])])) = Inr False"
proof -
  let ?ctx = "JObj 0 [(''task'', JObj 1 [(''title'', JStr ''T'')])]"
  have a: "fst (getFieldValue sample_realm ?ctx ''task.dueDate'') = Inr JUndefined"
    by (simp add: getFieldValue_def sample_realm_def sample_inherited_def)
  have b: "fst (getFieldValue sample_realm ?ctx ''task.title'') = Inr (JStr ''T'')"
    by (simp add: getFieldValue_def)
  show ?thesis
    using is_empty_on_lookup
        [of "\<lparr>field = ''task.dueDate'', operator = ''is_empty'', cond_value = JNull\<rparr>"
            sample_realm ?ctx JUndefined]
      is_empty_on_lookup
        [of "\<lparr>field = ''task.title'', operator = ''is_empty'', cond_value = JNull\<rparr>"
            sample_realm ?ctx "JStr ''T''"]
      a b
    by simp
qed

section \<open>Template interpolation, as specified\<close>

lemma replace_tokens_context: "snd (replace_tokens R context s) = context"
  by (induction R "context" s rule: replace_tokens.induct)
     (auto simp: getFieldValue_def split: option.splits prod.splits sum.splits)



















section \<open>The registry, the global switch and the schedule\<close>

lemma Map_get_set: "Map_get (Map_set k v m) k = Some v"
  by (induction m) (auto simp: Map_get_def)

lemma Map_get_delete: "Map_get (Map_delete k m) k = None"
  by (induction m) (auto simp: Map_get_def Map_delete_def)

lemma Map_set_twice: "Map_set k v' (Map_set k v m) = Map_set k v' m"
  by (induction m) auto

text \<open>
  C7. After \<open>addRule r\<close>, \<open>getRule\<close> on the id of \<open>r\<close> returns \<open>r\<close> itself. A later
  \<open>addRule\<close> of a rule with the same id replaces it: the registry is the one that the later
  rule alone would have given, and \<open>getRule\<close> returns the later rule. After \<open>removeRule\<close> on
  the id, \<open>getRule\<close> finds nothing.
\<close>

theorem registry_round_trip:
  "getRule (rule_id r) (addRule r st) = Some r
   \<and> (rule_id r' = rule_id r \<longrightarrow>
        getRule (rule_id r) (addRule r' (addRule r st)) = Some r'
        \<and> addRule r' (addRule r st) = addRule r' st)
   \<and> getRule (rule_id r) (removeRule (rule_id r) (addRule r st)) = None"
  by (simp add: getRule_def addRule_def removeRule_def Map_get_set Map_get_delete Map_set_twice)

theorem registry_round_trip_witness:
  "rule_id (high_priority_notification\<lparr>enabled := False\<rparr>) = rule_id high_priority_notification
   \<and> getRule ''high-priority-notification''
        (addRule (high_priority_notification\<lparr>enabled := False\<rparr>)
           (addRule high_priority_notification (new_engine True)))
      = Some (high_priority_notification\<lparr>enabled := False\<rparr>)
   \<and> getRule ''high-priority-notification''
        (removeRule ''high-priority-notification''
           (addRule high_priority_notification (new_engine True)))
      = None"
  using registry_round_trip [of high_priority_notification "new_engine True"
      "high_priority_notification\<lparr>enabled := False\<rparr>"]
  by (simp add: high_priority_notification_def getRule_def addRule_def removeRule_def
      Map_get_def Map_delete_def new_engine_def)

text \<open>
  C9. Once the engine is switched off by \<open>setEnabled False\<close>, a dispatch of any trigger
  type on any context, whatever the rules and their flags and whatever the collaborators
  do, raises nothing and leaves the context, the registry, the switch and the trace as
  they are: nothing is evaluated and nothing is executed. The same holds on every engine
  whose switch is off, so for every later dispatch as long as the switch stays off.
\<close>

theorem disabled_engine_noop:
  "triggerAutomation R c triggerType context (setEnabled False st)
     = (None, context, setEnabled False st)
   \<and> (\<not> isEnabled st' \<longrightarrow>
        triggerAutomation R c triggerType context st' = (None, context, st'))"
  by (simp add: triggerAutomation_def setEnabled_def)

theorem disabled_engine_noop_witness:
  "isEnabled two_rules
   \<and> \<not> isEnabled (addRule first_rule (setEnabled False two_rules))
   \<and> triggerAutomation sample_realm reliable ''task_created'' (JObj 0 []) (setEnabled False two_rules)
       = (None, JObj 0 [], setEnabled False two_rules)
   \<and> triggerAutomation sample_realm reliable ''task_created'' (JObj 0 [])
         (addRule first_rule (setEnabled False two_rules))
       = (None, JObj 0 [], addRule first_rule (setEnabled False two_rules))"
  using disabled_engine_noop [of sample_realm reliable "''task_created''" "JObj 0 []" two_rules
      "addRule first_rule (setEnabled False two_rules)"]
  by (simp add: two_rules_def addRule_def new_engine_def setEnabled_def)

text \<open>
  C3, as claimed, fails: started at 08:00, the schedule does not fire at the next
  occurrence of 09:00, which is one hour later, but at 09:00 of the next day.
\<close>

theorem first_fire_not_next_occurrence:
  "fire_time (8 * 3600000) 0 \<noteq> spec_next_occurrence (8 * 3600000)"
  by (simp add: fire_time_def setupDailySchedule_def spec_next_occurrence_def setHours_def
      setDate_next_def ms_per_day_def)

lemma div_add_day: "(now + ms_per_day) div ms_per_day = now div ms_per_day + 1"
  by (simp add: ms_per_day_def)

text \<open>
  C3, amended. Whatever the time of the start, the first daily run is at 09:00 of the
  calendar day after the start, and the \<open>k\<close>-th following run is \<open>k\<close> times 24 hours
  later. When the start is at or after 09:00 of its day, the first run is at the next
  occurrence of 09:00 after the start.
\<close>

theorem first_fire_tomorrow:
  "fire_time now k = (now div ms_per_day + 1) * ms_per_day + 9 * 3600000 + int k * ms_per_day
   \<and> (setHours 9 0 0 0 now \<le> now \<longrightarrow> fire_time now 0 = spec_next_occurrence now)"
  by (simp add: fire_time_def setupDailySchedule_def spec_next_occurrence_def setHours_def
      setDate_next_def div_add_day Let_def) (simp add: ms_per_day_def algebra_simps)

theorem first_fire_tomorrow_witness:
  "setHours 9 0 0 0 (14 * 3600000) \<le> 14 * 3600000
   \<and> fire_time (14 * 3600000) 0 = ms_per_day + 9 * 3600000
   \<and> fire_time (14 * 3600000) 0 = spec_next_occurrence (14 * 3600000)
   \<and> fire_time (14 * 3600000) 2 = 3 * ms_per_day + 9 * 3600000"
  using first_fire_tomorrow [of "14 * 3600000" 0] first_fire_tomorrow [of "14 * 3600000" 2]
  by (simp add: setHours_def ms_per_day_def)

section \<open>Dispatch: what is called and what is left behind\<close>

lemma emit_Nil: "emit [] st = st"
  by (simp add: emit_def)

lemma emit_emit: "emit evs2 (emit evs1 st) = emit (evs1 @ evs2) st"
  by (simp add: emit_def)

lemma new_events_emit: "new_events st (emit evs st) = evs"
  by (simp add: new_events_def emit_def)

lemma trace_emit: "trace (emit evs st) = trace st @ evs"
  by (simp add: emit_def)

lemma evaluateConditions_loop_context:
  "snd (evaluateConditions_loop R conds context) = context"
  by (induction conds) (auto simp: getFieldValue_def split: sum.splits)

lemma evaluateConditions_context: "snd (evaluateConditions R conds context) = context"
  by (simp add: evaluateConditions_def evaluateConditions_loop_context)

lemma interpolateString_context: "snd (interpolateString R t context) = context"
  by (cases t) (simp_all add: interpolateString_def replace_tokens_context)

text \<open>
  No action handler records a call, and each leaves the context and, up to the events
  it adds, the engine as they were.
\<close>

lemma quiet_same: "\<exists>evs. st = emit evs st \<and> filter is_call evs = []"
  by (rule exI [of _ "[]"]) (simp add: emit_Nil)

lemma quiet_emit:
  "filter is_call evs = [] \<Longrightarrow> \<exists>evs'. emit evs st = emit evs' st \<and> filter is_call evs' = []"
  by blast

lemma sendNotification_quiet:
  "fst (snd (sendNotification R c ps context st)) = context
   \<and> (\<exists>evs. snd (snd (sendNotification R c ps context st)) = emit evs st \<and> filter is_call evs = [])"
  using interpolateString_context [of R "param ps ''message''" "context"]
  by (cases "interpolateString R (param ps ''message'') context")
     (auto simp: sendNotification_def quiet_same split: sum.splits option.splits intro!: quiet_emit)

lemma createTask_quiet:
  "fst (snd (createTask R c ps context st)) = context
   \<and> (\<exists>evs. snd (snd (createTask R c ps context st)) = emit evs st \<and> filter is_call evs = [])"
  using interpolateString_context [of R "param ps ''title''" "context"]
  by (cases "interpolateString R (param ps ''title'') context")
     (auto simp: createTask_def quiet_same split: sum.splits intro!: quiet_emit)

lemma updateTask_quiet:
  "fst (snd (updateTask R c ps context st)) = context
   \<and> (\<exists>evs. snd (snd (updateTask R c ps context st)) = emit evs st \<and> filter is_call evs = [])"
  by (auto simp: updateTask_def quiet_same split: sum.splits intro!: quiet_emit)

lemma createNote_quiet:
  "fst (snd (createNote R c ps context st)) = context
   \<and> (\<exists>evs. snd (snd (createNote R c ps context st)) = emit evs st \<and> filter is_call evs = [])"
  using interpolateString_context [of R "param ps ''content''" "context"]
    interpolateString_context [of R "param ps ''path''" "context"]
  by (cases "interpolateString R (param ps ''content'') context";
      cases "interpolateString R (param ps ''path'') context")
     (auto simp: createNote_def quiet_same split: sum.splits option.splits intro!: quiet_emit)

lemma updateStatus_quiet:
  "fst (snd (updateStatus R c ps context st)) = context
   \<and> (\<exists>evs. snd (snd (updateStatus R c ps context st)) = emit evs st \<and> filter is_call evs = [])"
  by (auto simp: updateStatus_def quiet_same intro!: quiet_emit)

lemma executeAction_quiet:
  "fst (snd (executeAction R c a context st)) = context
   \<and> (\<exists>evs. snd (snd (executeAction R c a context st)) = emit evs st \<and> filter is_call evs = [])"
  using sendNotification_quiet createTask_quiet updateTask_quiet createNote_quiet updateStatus_quiet
  by (auto simp: executeAction_def quiet_same intro!: quiet_emit)

text \<open>
  The calls of a run, in order. \<open>executeActions\<close> calls \<open>executeAction\<close> once per action
  and raises nothing; \<open>run_rules\<close> makes the calls of each rule in turn, up to the first
  rule whose conditions raise.
\<close>

lemma executeActions_calls:
  "\<exists>evs. executeActions R c as context st = (None, context, emit evs st)
         \<and> filter is_call evs = map ExecuteAction as"
proof (induction as arbitrary: st)
  case Nil
  show ?case by (simp add: exI [of _ "[]"] emit_Nil)
next
  case (Cons a as)
  let ?st1 = "emit [ExecuteAction a] st"
  obtain x st2 where step: "executeAction R c a context ?st1 = (x, context, st2)"
    using executeAction_quiet [of R c a "context" ?st1]
    by (cases "executeAction R c a context ?st1") auto
  obtain evs2 where st2: "st2 = emit evs2 ?st1" and q2: "filter is_call evs2 = []"
    using executeAction_quiet [of R c a "context" ?st1] step by auto
  let ?caught = "case x of None \<Rightarrow> [] | Some e \<Rightarrow> [ConsoleError ''Error executing automation action:'' e]"
  from Cons.IH [of "emit ?caught st2"] obtain evs3 where
    rest: "executeActions R c as context (emit ?caught st2) = (None, context, emit evs3 (emit ?caught st2))"
    and q3: "filter is_call evs3 = map ExecuteAction as"
    by blast
  have run: "executeActions R c (a # as) context st = executeActions R c as context (emit ?caught st2)"
    using step by (cases x) (simp_all add: try_catch_def emit_Nil)
  have "emit evs3 (emit ?caught st2) = emit ([ExecuteAction a] @ evs2 @ ?caught @ evs3) st"
    by (simp add: st2 emit_emit)
  moreover have "filter is_call ([ExecuteAction a] @ evs2 @ ?caught @ evs3) = map ExecuteAction (a # as)"
    using q2 q3 by (cases x) simp_all
  ultimately show ?case
    using run rest by metis
qed

lemma run_rules_calls:
  "\<exists>evs. run_rules R c rs context st = (first_raise R context rs, context, emit evs st)
         \<and> filter is_call evs = calls_of_rules R context rs"
proof (induction rs arbitrary: st)
  case Nil
  show ?case by (simp add: exI [of _ "[]"] emit_Nil)
next
  case (Cons r rs)
  obtain res where ev: "evaluateConditions R (conditions r) context = (res, context)"
    using evaluateConditions_context [of R "conditions r" "context"]
    by (cases "evaluateConditions R (conditions r) context") auto
  show ?case
  proof (cases res)
    case (Inl e)
    have run: "run_rules R c (r # rs) context st
        = (first_raise R context (r # rs), context, emit [EvaluateConditions r] st)"
      using ev Inl by simp
    have "filter is_call [EvaluateConditions r] = calls_of_rules R context (r # rs)"
      using ev Inl by simp
    with run show ?thesis by blast
  next
    case (Inr ok)
    show ?thesis
    proof (cases ok)
      case True
      let ?st1 = "emit [EvaluateConditions r, ExecuteActions r] st"
      obtain evs2 where
        acts: "executeActions R c (actions r) context ?st1 = (None, context, emit evs2 ?st1)"
        and q2: "filter is_call evs2 = map ExecuteAction (actions r)"
        using executeActions_calls [of R c "actions r" "context" ?st1] by blast
      from Cons.IH [of "emit evs2 ?st1"] obtain evs3 where
        rest: "run_rules R c rs context (emit evs2 ?st1)
          = (first_raise R context rs, context, emit evs3 (emit evs2 ?st1))"
        and q3: "filter is_call evs3 = calls_of_rules R context rs"
        by blast
      have run: "run_rules R c (r # rs) context st
          = (first_raise R context (r # rs), context, emit evs3 (emit evs2 ?st1))"
        using ev Inr True acts rest by simp
      have "emit evs3 (emit evs2 ?st1)
          = emit ([EvaluateConditions r, ExecuteActions r] @ evs2 @ evs3) st"
        by (simp add: emit_emit)
      moreover have "filter is_call ([EvaluateConditions r, ExecuteActions r] @ evs2 @ evs3)
          = calls_of_rules R context (r # rs)"
        using q2 q3 ev Inr True by (simp add: calls_of_rule_def)
      ultimately show ?thesis
        using run by metis
    next
      case False
      let ?st1 = "emit [EvaluateConditions r] st"
      from Cons.IH [of ?st1] obtain evs3 where
        rest: "run_rules R c rs context ?st1 = (first_raise R context rs, context, emit evs3 ?st1)"
        and q3: "filter is_call evs3 = calls_of_rules R context rs"
        by blast
      have run: "run_rules R c (r # rs) context st
          = (first_raise R context (r # rs), context, emit evs3 ?st1)"
        using ev Inr False rest by simp
      have "emit evs3 ?st1 = emit ([EvaluateConditions r] @ evs3) st"
        by (simp add: emit_emit)
      moreover have "filter is_call ([EvaluateConditions r] @ evs3)
          = calls_of_rules R context (r # rs)"
        using q3 ev Inr False by (simp add: calls_of_rule_def)
      ultimately show ?thesis
        using run by metis
    qed
  qed
qed

lemma triggerAutomation_calls:
  "\<exists>evs. triggerAutomation R c triggerType context st
           = (if isEnabled st then first_raise R context (applicableRules st triggerType) else None,
              context, emit evs st)
         \<and> filter is_call evs =
             (if isEnabled st then calls_of_rules R context (applicableRules st triggerType)
              else [])"
proof (cases "isEnabled st")
  case True
  then show ?thesis
    using run_rules_calls [of R c "applicableRules st triggerType" "context" st]
    by (simp add: triggerAutomation_def)
next
  case False
  then show ?thesis
    by (simp add: triggerAutomation_def exI [of _ "[]"] emit_Nil)
qed

lemma calls_of_rules_member:
  "e \<in> set (calls_of_rules R context rs) \<Longrightarrow> \<exists>r \<in> set rs. e \<in> set (calls_of_rule R context r)"
  by (induction rs) (auto simp: calls_of_rule_def split: sum.splits if_splits)

lemma calls_of_rules_no_raise:
  "\<forall>r \<in> set rs. \<forall>e. fst (evaluateConditions R (conditions r) context) \<noteq> Inl e \<Longrightarrow>
   calls_of_rules R context rs = concat (map (calls_of_rule R context) rs)
   \<and> first_raise R context rs = None"
  by (induction rs) (auto split: sum.splits)

lemma first_raise_member:
  "first_raise R context rs = Some e \<Longrightarrow>
   \<exists>r \<in> set rs. fst (evaluateConditions R (conditions r) context) = Inl e"
  by (induction rs) (auto split: sum.splits)

lemma call_in_dispatch:
  assumes "triggerAutomation R c triggerType context st = (x, context', st')"
    and "e \<in> set (new_events st st')" and "is_call e"
  shows "\<exists>r \<in> set (applicableRules st triggerType). e \<in> set (calls_of_rule R context r)"
proof -
  obtain evs where run: "snd (snd (triggerAutomation R c triggerType context st)) = emit evs st"
    and calls: "filter is_call evs =
      (if isEnabled st then calls_of_rules R context (applicableRules st triggerType) else [])"
    using triggerAutomation_calls [of R c triggerType "context" st] by force
  from run assms(1) have "new_events st st' = evs"
    by (simp add: new_events_emit)
  with assms(2,3) have "e \<in> set (filter is_call evs)" by simp
  with calls show ?thesis
    by (auto split: if_splits dest: calls_of_rules_member)
qed


text \<open>
  C8. The context is handed over by reference, and each operation returns the context
  it leaves behind. After a field lookup, after the evaluation of a list of conditions,
  after the interpolation of a template and after a dispatch, for any rules, trigger type
  and collaborators, the context left behind is the context received: the engine reads
  it and never writes it.
\<close>

theorem context_never_written:
  "snd (getFieldValue R context f) = context
   \<and> snd (evaluateConditions R conds context) = context
   \<and> snd (interpolateString R t context) = context
   \<and> fst (snd (triggerAutomation R c triggerType context st)) = context"
proof -
  obtain x evs where "triggerAutomation R c triggerType context st = (x, context, emit evs st)"
    using triggerAutomation_calls [of R c triggerType "context" st] by blast
  then show ?thesis
    by (simp add: getFieldValue_def evaluateConditions_context interpolateString_context)
qed

text \<open>
  C1. Let \<open>r\<close> be a rule whose \<open>enabled\<close> flag is off, in the registry or not, whatever its
  trigger type. A dispatch of any trigger type on any context only adds events to the
  trace, and among the added events there is neither an evaluation of the conditions of
  \<open>r\<close> nor an execution of the actions of \<open>r\<close>. Every action that is executed is an action
  of a rule of the registry that is enabled and has the dispatched trigger type.
\<close>

theorem disabled_rule_not_run:
  assumes "\<not> enabled r"
    and "triggerAutomation R c triggerType context st = (x, context', st')"
  shows "trace st' = trace st @ new_events st st'
    \<and> EvaluateConditions r \<notin> set (new_events st st')
    \<and> ExecuteActions r \<notin> set (new_events st st')
    \<and> (\<forall>a. ExecuteAction a \<in> set (new_events st st') \<longrightarrow>
          (\<exists>r' \<in> set (getRules st).
             enabled r' \<and> trigger_type (trigger r') = triggerType \<and> a \<in> set (actions r')))"
proof -
  obtain evs where run: "snd (snd (triggerAutomation R c triggerType context st)) = emit evs st"
    using triggerAutomation_calls [of R c triggerType "context" st] by force
  with assms(2) have ext: "trace st' = trace st @ new_events st st'"
    by (auto simp: new_events_emit trace_emit)
  have app: "enabled r' \<and> trigger_type (trigger r') = triggerType \<and> r' \<in> set (getRules st)"
    if "r' \<in> set (applicableRules st triggerType)" for r'
    using that by (auto simp: applicableRules_def getRules_def)
  have no_eval: "EvaluateConditions r \<notin> set (new_events st st')"
  proof
    assume "EvaluateConditions r \<in> set (new_events st st')"
    from call_in_dispatch [OF assms(2) this] obtain r' where
      "r' \<in> set (applicableRules st triggerType)"
      "EvaluateConditions r \<in> set (calls_of_rule R context r')"
      by auto
    then have "enabled r" using app [of r']
      by (auto simp: calls_of_rule_def split: if_splits)
    with assms(1) show False by simp
  qed
  have no_exec: "ExecuteActions r \<notin> set (new_events st st')"
  proof
    assume "ExecuteActions r \<in> set (new_events st st')"
    from call_in_dispatch [OF assms(2) this] obtain r' where
      "r' \<in> set (applicableRules st triggerType)"
      "ExecuteActions r \<in> set (calls_of_rule R context r')"
      by auto
    then have "enabled r" using app [of r']
      by (auto simp: calls_of_rule_def split: if_splits)
    with assms(1) show False by simp
  qed
  have owned: "\<exists>r' \<in> set (getRules st).
      enabled r' \<and> trigger_type (trigger r') = triggerType \<and> a \<in> set (actions r')"
    if "ExecuteAction a \<in> set (new_events st st')" for a
  proof -
    from call_in_dispatch [OF assms(2) that] obtain r' where
      r': "r' \<in> set (applicableRules st triggerType)"
        "ExecuteAction a \<in> set (calls_of_rule R context r')"
      by auto
    then have "a \<in> set (actions r')"
      by (auto simp: calls_of_rule_def split: if_splits)
    with app [OF r'(1)] show ?thesis by blast
  qed
  from ext no_eval no_exec owned show ?thesis by blast
qed

text \<open>The actions executed by a run, read off its calls.\<close>

lemma executed_actions_append:
  "executed_actions (xs @ ys) = executed_actions xs @ executed_actions ys"
  by (induction xs rule: executed_actions.induct) auto

lemma executed_actions_calls: "executed_actions (filter is_call evs) = executed_actions evs"
  by (induction evs rule: executed_actions.induct) auto

lemma executed_actions_map: "executed_actions (map ExecuteAction as) = as"
  by (induction as) auto

lemma executed_actions_rules:
  "executed_actions (concat (map (calls_of_rule R context) rs))
     = concat (map actions
         (filter (\<lambda>r. fst (evaluateConditions R (conditions r) context) = Inr True) rs))"
  by (induction rs) (auto simp: executed_actions_append executed_actions_map calls_of_rule_def)

text \<open>
  C2, as claimed, fails: a dispatch can raise. The condition of the rule below reads
  \<^verbatim>\<open>constructor.caller\<close>; on the empty context the first part gives the function
  \<^verbatim>\<open>Object\<close>, whose \<^verbatim>\<open>caller\<close> raises, and nothing between the lookup and the caller of the
  dispatch catches the exception.
\<close>

theorem condition_failure_propagates:
  "isEnabled caller_engine
   \<and> getRule ''caller'' caller_engine = Some caller_rule
   \<and> fst (triggerAutomation sample_realm reliable ''task_created'' (JObj 0 []) caller_engine)
       = Some TypeError"
  by (simp add: caller_engine_def caller_rule_def addRule_def new_engine_def getRule_def
      Map_get_def triggerAutomation_def applicableRules_def Map_values_def
      evaluateConditions_def getFieldValue_def sample_realm_def sample_inherited_def)

text \<open>
  C2, amended. A dispatch on an enabled engine makes the calls of the applicable
  rules in turn and ends at the first rule whose conditions raise, with that exception;
  it raises nothing else, whatever the collaborators do and whichever actions raise. When
  no evaluation of conditions raises, the dispatch raises nothing, and the actions it
  executes are, in order, all the actions of all the applicable rules whose conditions
  hold. \<open>executeActions\<close> never raises and calls \<open>executeAction\<close> on every action of its
  list: when \<open>executeAction\<close> raises \<open>e\<close> on the first action, \<open>executeActions\<close> logs \<open>e\<close> and
  goes on with the rest of the list.
\<close>

theorem action_failures_contained:
  assumes "isEnabled st"
    and "triggerAutomation R c triggerType context st = (x, context', st')"
  shows "trace st' = trace st @ new_events st st'
    \<and> x = first_raise R context (applicableRules st triggerType)
    \<and> filter is_call (new_events st st')
        = calls_of_rules R context (applicableRules st triggerType)
    \<and> (\<forall>e. x = Some e \<longrightarrow>
          (\<exists>r \<in> set (applicableRules st triggerType).
             fst (evaluateConditions R (conditions r) context) = Inl e))
    \<and> ((\<forall>r \<in> set (applicableRules st triggerType).
           \<forall>e. fst (evaluateConditions R (conditions r) context) \<noteq> Inl e) \<longrightarrow>
        x = None
        \<and> executed_actions (new_events st st')
            = concat (map actions
                (filter (\<lambda>r. fst (evaluateConditions R (conditions r) context) = Inr True)
                   (applicableRules st triggerType))))
    \<and> fst (executeActions R c as context st0) = None
    \<and> executed_actions (new_events st0 (snd (snd (executeActions R c as context st0)))) = as
    \<and> (fst (executeAction R c a context (emit [ExecuteAction a] st0)) = Some e' \<longrightarrow>
          executeActions R c (a # rest) context st0
            = executeActions R c rest context
                (emit [ConsoleError ''Error executing automation action:'' e']
                   (snd (snd (executeAction R c a context (emit [ExecuteAction a] st0))))))"
proof -
  let ?rs = "applicableRules st triggerType"
  obtain evs where run: "triggerAutomation R c triggerType context st
      = (first_raise R context ?rs, context, emit evs st)"
    and calls: "filter is_call evs = calls_of_rules R context ?rs"
    using triggerAutomation_calls [of R c triggerType "context" st] assms(1) by auto
  from run assms(2) have x: "x = first_raise R context ?rs" and st': "st' = emit evs st"
    by auto
  have ext: "trace st' = trace st @ new_events st st'"
    by (simp add: st' new_events_emit trace_emit)
  have cs: "filter is_call (new_events st st') = calls_of_rules R context ?rs"
    by (simp add: st' new_events_emit calls)
  have raised: "\<exists>r \<in> set ?rs. fst (evaluateConditions R (conditions r) context) = Inl e"
    if "x = Some e" for e
    using that x first_raise_member [of R "context" ?rs e] by simp
  have quiet: "x = None
      \<and> executed_actions (new_events st st')
          = concat (map actions
              (filter (\<lambda>r. fst (evaluateConditions R (conditions r) context) = Inr True) ?rs))"
    if nr: "\<forall>r \<in> set ?rs. \<forall>e. fst (evaluateConditions R (conditions r) context) \<noteq> Inl e"
  proof -
    from calls_of_rules_no_raise [OF nr]
    have a: "calls_of_rules R context ?rs = concat (map (calls_of_rule R context) ?rs)"
      and b: "first_raise R context ?rs = None"
      by auto
    have "executed_actions (new_events st st') = executed_actions (filter is_call (new_events st st'))"
      by (simp add: executed_actions_calls)
    with cs a b x show ?thesis
      by (simp add: executed_actions_rules)
  qed
  obtain evs0 where acts: "executeActions R c as context st0 = (None, context, emit evs0 st0)"
    and q0: "filter is_call evs0 = map ExecuteAction as"
    using executeActions_calls [of R c as "context" st0] by blast
  have never: "fst (executeActions R c as context st0) = None"
    by (simp add: acts)
  have "executed_actions evs0 = executed_actions (filter is_call evs0)"
    by (simp add: executed_actions_calls)
  with q0 have all: "executed_actions (new_events st0 (snd (snd (executeActions R c as context st0)))) = as"
    by (simp add: acts new_events_emit executed_actions_map)
  have caught: "executeActions R c (a # rest) context st0
      = executeActions R c rest context
          (emit [ConsoleError ''Error executing automation action:'' e']
             (snd (snd (executeAction R c a context (emit [ExecuteAction a] st0)))))"
    if "fst (executeAction R c a context (emit [ExecuteAction a] st0)) = Some e'"
    using that executeAction_quiet [of R c a "context" "emit [ExecuteAction a] st0"]
    by (cases "executeAction R c a context (emit [ExecuteAction a] st0)")
       (auto simp: try_catch_def)
  from ext x cs raised quiet never all caught show ?thesis by blast
qed

lemma getProp_dueDate: "\<exists>v. getProp R context ''dueDate'' = Inr v"
  by (cases "context") (auto split: jsval.splits option.splits)

lemma overdue_conditions_fail:
  "fst (evaluateConditions R (conditions (overdue_task_notification nowISO)) context) = Inr False"
  using getProp_dueDate [of R "context"]
  by (auto simp: overdue_task_notification_def evaluateConditions_def getFieldValue_def
      evaluateCondition_def)


text \<open>The example runs, evaluated.\<close>

lemma two_rules_run:
  "triggerAutomation sample_realm reliable ''task_created'' (JObj 0 []) two_rules
     = (None, JObj 0 [],
        emit [EvaluateConditions first_rule, ExecuteActions first_rule,
              ExecuteAction broken_notification,
              ConsoleError ''Error executing automation action:'' TypeError,
              ExecuteAction check_milestone,
              ConsoleLog ''Automation: Checking milestone completion'',
              EvaluateConditions second_rule, ExecuteActions second_rule,
              ExecuteAction say_hello, Notice ''hello'',
              ConsoleLog ''Notification created for message: hello''] two_rules)"
  by (simp add: reliable_def broken_notification_def check_milestone_def say_hello_def
      first_rule_def second_rule_def two_rules_def
      triggerAutomation_def applicableRules_def Map_values_def
      addRule_def new_engine_def evaluateConditions_def
      executeAction_def sendNotification_def updateStatus_def param_def interpolateString_def
      match_token_def try_catch_def emit_def)

lemma first_disabled_run:
  "triggerAutomation sample_realm reliable ''task_created'' (JObj 0 []) first_disabled
     = (None, JObj 0 [],
        emit [EvaluateConditions second_rule, ExecuteActions second_rule,
              ExecuteAction say_hello, Notice ''hello'',
              ConsoleLog ''Notification created for message: hello''] first_disabled)"
  by (simp add: reliable_def broken_notification_def check_milestone_def say_hello_def
      first_rule_def second_rule_def two_rules_def first_disabled_def
      triggerAutomation_def applicableRules_def Map_values_def
      disableRule_def addRule_def new_engine_def Map_get_def evaluateConditions_def
      executeAction_def sendNotification_def param_def interpolateString_def match_token_def
      try_catch_def emit_def)

theorem disabled_rule_not_run_witness:
  "getRule ''first'' first_disabled = Some (first_rule\<lparr>enabled := False\<rparr>)
   \<and> \<not> enabled (first_rule\<lparr>enabled := False\<rparr>)
   \<and> trigger_type (trigger (first_rule\<lparr>enabled := False\<rparr>)) = ''task_created''
   \<and> new_events first_disabled
        (snd (snd (triggerAutomation sample_realm reliable ''task_created'' (JObj 0 [])
           first_disabled)))
      = [EvaluateConditions second_rule, ExecuteActions second_rule,
         ExecuteAction say_hello, Notice ''hello'',
         ConsoleLog ''Notification created for message: hello'']
   \<and> EvaluateConditions (first_rule\<lparr>enabled := False\<rparr>)
        \<notin> set (new_events first_disabled
              (snd (snd (triggerAutomation sample_realm reliable ''task_created'' (JObj 0 [])
                 first_disabled))))
   \<and> ExecuteActions (first_rule\<lparr>enabled := False\<rparr>)
        \<notin> set (new_events first_disabled
              (snd (snd (triggerAutomation sample_realm reliable ''task_created'' (JObj 0 [])
                 first_disabled))))"
proof -
  have r: "\<not> enabled (first_rule\<lparr>enabled := False\<rparr>)" by simp
  have g: "getRule ''first'' first_disabled = Some (first_rule\<lparr>enabled := False\<rparr>)"
    by (simp add: first_disabled_def two_rules_def disableRule_def addRule_def new_engine_def
        getRule_def Map_get_def first_rule_def second_rule_def)
  have t: "trigger_type (trigger (first_rule\<lparr>enabled := False\<rparr>)) = ''task_created''"
    by (simp add: first_rule_def)
  show ?thesis
    using disabled_rule_not_run [OF r first_disabled_run] g t
    by (simp add: first_disabled_run new_events_emit)
qed

theorem action_failures_contained_witness:
  "isEnabled two_rules
   \<and> list_all (\<lambda>r. fst (evaluateConditions sample_realm (conditions r) (JObj 0 [])) = Inr True)
        (applicableRules two_rules ''task_created'')
   \<and> fst (executeAction sample_realm reliable broken_notification (JObj 0 [])
            (emit [ExecuteAction broken_notification] two_rules)) = Some TypeError
   \<and> fst (triggerAutomation sample_realm reliable ''task_created'' (JObj 0 []) two_rules) = None
   \<and> new_events two_rules
        (snd (snd (triggerAutomation sample_realm reliable ''task_created'' (JObj 0 [])
           two_rules)))
      = [EvaluateConditions first_rule, ExecuteActions first_rule,
         ExecuteAction broken_notification,
         ConsoleError ''Error executing automation action:'' TypeError,
         ExecuteAction check_milestone,
         ConsoleLog ''Automation: Checking milestone completion'',
         EvaluateConditions second_rule, ExecuteActions second_rule,
         ExecuteAction say_hello, Notice ''hello'',
         ConsoleLog ''Notification created for message: hello'']
   \<and> executed_actions (new_events two_rules
        (snd (snd (triggerAutomation sample_realm reliable ''task_created'' (JObj 0 [])
           two_rules))))
      = [broken_notification, check_milestone, say_hello]
   \<and> executeActions sample_realm reliable [broken_notification, check_milestone] (JObj 0 [])
        two_rules
      = executeActions sample_realm reliable [check_milestone] (JObj 0 [])
          (emit [ExecuteAction broken_notification,
                 ConsoleError ''Error executing automation action:'' TypeError] two_rules)"
proof -
  have en: "isEnabled two_rules"
    by (simp add: two_rules_def addRule_def new_engine_def)
  have app: "applicableRules two_rules ''task_created'' = [first_rule, second_rule]"
    by (simp add: applicableRules_def Map_values_def two_rules_def addRule_def new_engine_def
        first_rule_def second_rule_def)
  have conds: "list_all
      (\<lambda>r. fst (evaluateConditions sample_realm (conditions r) (JObj 0 [])) = Inr True)
      (applicableRules two_rules ''task_created'')"
    by (simp add: app first_rule_def second_rule_def evaluateConditions_def)
  have raised: "fst (executeAction sample_realm reliable broken_notification (JObj 0 [])
      (emit [ExecuteAction broken_notification] two_rules)) = Some TypeError"
    by (simp add: executeAction_def sendNotification_def broken_notification_def param_def
        interpolateString_def)
  show ?thesis
    using action_failures_contained [OF en two_rules_run,
        where a = broken_notification and ?st0.0 = two_rules and e' = TypeError
          and rest = "[check_milestone]"]
      en raised conds
    by (simp add: two_rules_run new_events_emit emit_emit executeAction_def
        sendNotification_def broken_notification_def param_def interpolateString_def)
qed

text \<open>
  C10. The conditions of the default rule \<^verbatim>\<open>overdue-task-notification\<close> hold in no
  context, whatever the date string in its first condition: the literal of the
  \<^verbatim>\<open>less_than\<close> condition is a string, not a number, and the evaluation gives false. So no
  dispatch, of any trigger type and on any engine, executes the actions of this rule. In
  particular, on the engine as \<open>initialize\<close> leaves it, where \<open>getRule\<close> finds this rule,
  the daily run only evaluates the conditions of this rule: no action is executed and no
  notice is shown.
\<close>

theorem overdue_rule_never_fires:
  "fst (evaluateConditions R (conditions (overdue_task_notification nowISO)) context) = Inr False
   \<and> ExecuteActions (overdue_task_notification nowISO)
        \<notin> set (new_events st (snd (snd (triggerAutomation R c triggerType context st))))
   \<and> getRule ''overdue-task-notification'' (initialize c folder nowISO (new_engine True))
        = Some (overdue_task_notification nowISO)
   \<and> new_events (initialize c folder nowISO (new_engine True))
        (snd (snd (runDailyAutomation R c a dateISO
           (initialize c folder nowISO (new_engine True)))))
      = [EvaluateConditions (overdue_task_notification nowISO)]"
proof -
  let ?r = "overdue_task_notification nowISO"
  let ?st0 = "initialize c folder nowISO (new_engine True)"
  let ?ctx = "JObj a [(''date'', JStr dateISO), (''type'', JStr ''daily_check'')]"
  have never: "fst (evaluateConditions R (conditions ?r) ctx) = Inr False" for ctx
    by (rule overdue_conditions_fail)
  obtain x context' st' where
    run: "triggerAutomation R c triggerType context st = (x, context', st')"
    by (cases "triggerAutomation R c triggerType context st") auto
  have no_exec: "ExecuteActions ?r
      \<notin> set (new_events st (snd (snd (triggerAutomation R c triggerType context st))))"
  proof
    assume "ExecuteActions ?r
      \<in> set (new_events st (snd (snd (triggerAutomation R c triggerType context st))))"
    then have "ExecuteActions ?r \<in> set (new_events st st')"
      by (simp add: run)
    from call_in_dispatch [OF run this]
    obtain r' where "ExecuteActions ?r \<in> set (calls_of_rule R context r')"
      by auto
    then show False
      using never [of "context"] by (auto simp: calls_of_rule_def split: if_splits)
  qed
  have rs: "rules ?st0 =
      [(''overdue-task-notification'', ?r),
       (''task-completion-milestone'', task_completion_milestone),
       (''high-priority-notification'', high_priority_notification)]"
    by (simp add: initialize_def loadCustomRules_def loadDefaultRules_def defaultRules_def
        new_engine_def emit_def overdue_task_notification_def task_completion_milestone_def
        high_priority_notification_def split: option.splits)
  have en: "isEnabled ?st0"
    by (simp add: initialize_def loadCustomRules_def loadDefaultRules_def new_engine_def emit_def
        split: option.splits)
  have get: "getRule ''overdue-task-notification'' ?st0 = Some ?r"
    by (simp add: getRule_def Map_get_def rs)
  have app: "applicableRules ?st0 ''daily_schedule'' = [?r]"
    by (simp add: applicableRules_def Map_values_def rs overdue_task_notification_def
        task_completion_milestone_def high_priority_notification_def)
  obtain res where ev: "evaluateConditions R (conditions ?r) ?ctx = (res, ?ctx)"
    using evaluateConditions_context [of R "conditions ?r" ?ctx]
    by (cases "evaluateConditions R (conditions ?r) ?ctx") auto
  with never [of ?ctx] have "res = Inr False" by simp
  with ev have "run_rules R c [?r] ?ctx ?st0 = (None, ?ctx, emit [EvaluateConditions ?r] ?st0)"
    by simp
  with en app have "runDailyAutomation R c a dateISO ?st0
      = (None, ?ctx, emit [EvaluateConditions ?r] ?st0)"
    by (simp add: runDailyAutomation_def triggerAutomation_def)
  then have daily: "new_events ?st0 (snd (snd (runDailyAutomation R c a dateISO ?st0)))
      = [EvaluateConditions ?r]"
    by (simp add: new_events_emit)
  from never [of "context"] no_exec get daily show ?thesis by blast
qed

end
